theory Spec2Isabelle
  imports Main "HOL-Library.Word"
begin

section \<open>Data model of the App and its instances\<close>

text \<open>
  The Go package keeps instances behind pointers (\<^verbatim>\<open>*Instance\<close>): the App's
  \<^verbatim>\<open>instances\<close> slice and its \<^verbatim>\<open>activeInstance\<close> field alias the same objects, and
  the updater compares them by pointer. The model therefore has an explicit store: a
  reference is an address, the heap maps addresses to instance values.
\<close>

datatype InstanceStatus =
    InstanceStatusServing
  | InstanceStatusStarting
  | InstanceStatusStopping
  | InstanceStatusStopped
  | InstanceStatusFailed
  | InstanceStatusExited

datatype error =
    ErrNoActiveInstances
  | ErrPortsExhausted
  | ErrOther string

text \<open>A value handed to \<^verbatim>\<open>panic\<close> and returned by \<^verbatim>\<open>recover\<close>.\<close>

datatype panic_value =
    PanicError error
  | PanicOther string

type_synonym ref = nat

text \<open>
  The type \<^verbatim>\<open>Instance\<close> is declared in a file of the package that is not among the
  sources at hand. The App's code reads the fields \<^verbatim>\<open>id\<close> and \<^verbatim>\<open>status\<close>; host and port
  are what \<^verbatim>\<open>Hostname()\<close> prints.
\<close>

record Instance =
  inst_id :: "32 word"
  status :: InstanceStatus
  internalHost :: string
  port :: nat

record Request =
  urlScheme :: string
  urlHost :: string
  remoteAddr :: string
  header :: "(string \<times> string) list"

text \<open>
  \<^verbatim>\<open>http.Header\<close> maps a name to the list of its values; \<^verbatim>\<open>Add\<close> appends a value to
  the name's list. The model keeps the header lines in the order they were added.
\<close>

definition header_Add :: "string \<Rightarrow> string \<Rightarrow> Request \<Rightarrow> Request" where
  "header_Add key v req = req\<lparr>header := header req @ [(key, v)]\<rparr>"


text \<open>
  Everything the App does to the outside (its mutex, the methods of an instance, the
  response writer, the request body, the log, the reverse proxy) is recorded, in order,
  in a trace.
\<close>

datatype event =
    Lock
  | Unlock
  | SetActive "ref option"
  | UpdateStatusCall ref
  | StopCall ref
  | ServeCall ref
  | DoneCall ref
  | NewInstanceCall "32 word"
  | ReportCall
  | LogPrint panic_value
  | WriteHeader nat
  | BodyClose
  | ProxyCall Request

record App =
  instances :: "ref list"
  activeInstance :: "ref option"
  instanceId :: "32 word"

record state =
  app :: App
  heap :: "ref \<Rightarrow> Instance"
  nextRef :: ref
  trace :: "event list"

definition emit :: "event \<Rightarrow> state \<Rightarrow> state" where
  "emit e s = s\<lparr>trace := trace s @ [e]\<rparr>"

definition setActive :: "ref option \<Rightarrow> state \<Rightarrow> state" where
  "setActive v s = emit (SetActive v) (s\<lparr>app := (app s)\<lparr>activeInstance := v\<rparr>\<rparr>)"

text \<open>The events a call added to the trace.\<close>

definition since :: "state \<Rightarrow> state \<Rightarrow> event list" where
  "since s s' = drop (length (trace s)) (trace s')"

fun serves :: "event list \<Rightarrow> ref list" where
  "serves [] = []"
| "serves (ServeCall r # es) = r # serves es"
| "serves (_ # es) = serves es"

fun dones :: "event list \<Rightarrow> ref list" where
  "dones [] = []"
| "dones (DoneCall r # es) = r # dones es"
| "dones (_ # es) = dones es"

fun proxied :: "event list \<Rightarrow> Request list" where
  "proxied [] = []"
| "proxied (ProxyCall q # es) = q # proxied es"
| "proxied (_ # es) = proxied es"

fun assigned_ids :: "event list \<Rightarrow> 32 word list" where
  "assigned_ids [] = []"
| "assigned_ids (NewInstanceCall i # es) = i # assigned_ids es"
| "assigned_ids (_ # es) = assigned_ids es"

section \<open>The methods of an instance\<close>

text \<open>
  Modelled from the spec: \<^verbatim>\<open>Instance.Stop()\<close>, whose body is not among the sources.
  The spec: "Stop(): idempotent. Transitions Starting|Serving -> Stopping."
\<close>

definition Stop :: "ref \<Rightarrow> state \<Rightarrow> state" where
  "Stop r s =
     (let i = heap s r;
          st = (if status i = InstanceStatusStarting \<or> status i = InstanceStatusServing
                then InstanceStatusStopping else status i)
      in emit (StopCall r) (s\<lparr>heap := (heap s)(r := i\<lparr>status := st\<rparr>)\<rparr>))"

text \<open>
  Modelled from the spec: \<^verbatim>\<open>Instance.UpdateStatus()\<close>, whose body is not among the
  sources. The spec: "called periodically by the App. Drives probes during Starting; reaps
  the child [...]. Returns the current status." What the probe and the child process
  report is the environment's: \<open>obs r\<close> is the status the call finds for instance \<open>r\<close>.
\<close>

definition UpdateStatus :: "(ref \<Rightarrow> InstanceStatus) \<Rightarrow> ref \<Rightarrow> state \<Rightarrow> InstanceStatus \<times> state" where
  "UpdateStatus obs r s =
     (obs r, emit (UpdateStatusCall r) (s\<lparr>heap := (heap s)(r := (heap s r)\<lparr>status := obs r\<rparr>)\<rparr>))"

text \<open>
  Modelled from the spec: \<^verbatim>\<open>Instance.Serve()\<close> and \<^verbatim>\<open>Instance.Done()\<close>, whose bodies
  are not among the sources. The spec has them count the requests in flight inside the
  instance; the App only calls them, and the model records each call and leaves the
  counter out.
\<close>

definition Serve :: "ref \<Rightarrow> state \<Rightarrow> state" where
  "Serve r s = emit (ServeCall r) s"

definition Done :: "ref \<Rightarrow> state \<Rightarrow> state" where
  "Done r s = emit (DoneCall r) s"

text \<open>
  Modelled from the spec: \<^verbatim>\<open>Instance.Hostname()\<close>: "returns internalHost:port", printed
  as the App's own \<^verbatim>\<open>Hostname\<close> does, with \<^verbatim>\<open>fmt.Sprintf("%s:%d", ...)\<close>.
\<close>

fun decimal :: "nat \<Rightarrow> string" where
  "decimal n =
     (if n < 10 then [''0123456789'' ! n]
      else decimal (n div 10) @ [''0123456789'' ! (n mod 10)])"

declare decimal.simps [simp del]

definition Hostname :: "Instance \<Rightarrow> string" where
  "Hostname i = internalHost i @ '':'' @ decimal (port i)"

section \<open>The App\<close>

text \<open>
  \<^verbatim>\<open>NewApp\<close>: no instance, no active instance, the id counter at zero. The fields
  \<^verbatim>\<open>config\<close>, \<^verbatim>\<open>portPool\<close> and \<^verbatim>\<open>rp\<close> are used only through \<^verbatim>\<open>NewInstance\<close>,
  \<^verbatim>\<open>Report\<close> and the proxy call, which the model takes as parameters and events.
  \<^verbatim>\<open>NewApp\<close> also starts the updater, whose rounds are operations of a run.
\<close>

definition NewApp :: state where
  "NewApp =
     \<lparr>app = \<lparr>instances = [], activeInstance = None, instanceId = 0\<rparr>,
      heap = (\<lambda>_. \<lparr>inst_id = 0, status = InstanceStatusStopped, internalHost = [], port = 0\<rparr>),
      nextRef = 0,
      trace = []\<rparr>"

subsection \<open>The updater loop\<close>

text \<open>
  The body of the inner \<^verbatim>\<open>for _, instance := range a.instances\<close> of
  \<^verbatim>\<open>startInstanceUpdater\<close>, for one instance.
\<close>

definition updater_body :: "(ref \<Rightarrow> InstanceStatus) \<Rightarrow> ref \<Rightarrow> state \<Rightarrow> state" where
  "updater_body obs instance s =
     (let (st, s1) = UpdateStatus obs instance s in
      if st = InstanceStatusServing \<and> Some instance \<noteq> activeInstance (app s1) then
        (let s2 = emit Lock s1;
             currentActive = activeInstance (app s2);
             s3 = setActive (Some instance) s2;
             s4 = emit Unlock s3
         in (case currentActive of
               None \<Rightarrow> s4
             | Some prior \<Rightarrow> Stop prior s4))
      else if st = InstanceStatusExited then
        setActive None s1
      else s1)"

text \<open>
  One round of the outer loop, which never ends: every instance of the slice as it is
  when the round starts, then the report. \<open>obs\<close> is what the environment shows in this
  round. The wait for the ticker separates the rounds.
\<close>

definition updater_tick :: "(ref \<Rightarrow> InstanceStatus) \<Rightarrow> state \<Rightarrow> state" where
  "updater_tick obs s = emit ReportCall (fold (updater_body obs) (instances (app s)) s)"

subsection \<open>Admission\<close>

definition reserveInstance :: "state \<Rightarrow> (error + ref) \<times> state" where
  "reserveInstance s =
     (let s1 = emit Lock s in
      case activeInstance (app s1) of
        None \<Rightarrow> (Inl ErrNoActiveInstances, emit Unlock s1)
      | Some active \<Rightarrow>
          (let s2 = Serve active s1
           in (Inr active, emit Unlock s2)))"

subsection \<open>Starting an instance\<close>

text \<open>The first loop of \<^verbatim>\<open>StartNewInstance\<close>.\<close>

fun stopStarting :: "ref list \<Rightarrow> state \<Rightarrow> state" where
  "stopStarting [] s = s"
| "stopStarting (instance # rest) s =
     stopStarting rest
       (if status (heap s instance) = InstanceStatusStarting then Stop instance s else s)"

text \<open>
  \<^verbatim>\<open>NewInstance\<close> is not among the sources: it is a parameter, the function from the
  id it is given to the instance it builds or the error it returns. The counter is a
  \<^verbatim>\<open>uint32\<close> and \<^verbatim>\<open>atomic.AddUint32\<close> wraps around. The result is Go's \<^verbatim>\<open>error\<close>:
  \<open>None\<close> for \<^verbatim>\<open>nil\<close>.
\<close>

definition StartNewInstance :: "(32 word \<Rightarrow> error + Instance) \<Rightarrow> state \<Rightarrow> error option \<times> state" where
  "StartNewInstance NewInstance s =
     (let s1 = stopStarting (instances (app s)) s;
          newId = instanceId (app s1) + 1;
          s2 = emit (NewInstanceCall newId) (s1\<lparr>app := (app s1)\<lparr>instanceId := newId\<rparr>\<rparr>)
      in case NewInstance newId of
           Inl err \<Rightarrow> (Some err, s2)
         | Inr newInstance \<Rightarrow>
             (None,
              s2\<lparr>heap := (heap s2)(nextRef s2 := newInstance),
                 nextRef := Suc (nextRef s2),
                 app := (app s2)\<lparr>instances := instances (app s2) @ [nextRef s2]\<rparr>\<rparr>))"

subsection \<open>Serving a request\<close>

text \<open>
  How \<^verbatim>\<open>a.rp.ServeHTTP(rw, req)\<close> ends. The reverse proxy of the standard library answers
  an upstream failure itself and returns; it may also panic.
\<close>

datatype proxy_result =
    Completed
  | UpstreamFailed
  | Panicked panic_value

text \<open>
  The deferred function of \<^verbatim>\<open>ServeHTTP\<close>: \<open>recovered\<close> is what \<^verbatim>\<open>recover()\<close> returns,
  \<open>instance\<close> the handler's variable of that name.
\<close>

definition deferred :: "panic_value option \<Rightarrow> ref option \<Rightarrow> state \<Rightarrow> state" where
  "deferred recovered instance s =
     (let s1 = (case recovered of
                  None \<Rightarrow> s
                | Some err \<Rightarrow>
                    if err = PanicError ErrNoActiveInstances then
                      emit BodyClose (emit (WriteHeader 503) (emit (LogPrint err) s))
                    else emit (LogPrint err) s)
      in case instance of
           None \<Rightarrow> s1
         | Some i \<Rightarrow> Done i s1)"

text \<open>
  \<^verbatim>\<open>net.SplitHostPort\<close> and the reverse proxy belong to the standard library: \<open>splitHost\<close>
  is the host that \<^verbatim>\<open>SplitHostPort\<close> returns (the handler drops the port and the error),
  \<open>rp\<close> how the proxy ends on the request it is given.
\<close>

definition ServeHTTP :: "(string \<Rightarrow> string) \<Rightarrow> (Request \<Rightarrow> proxy_result) \<Rightarrow> Request \<Rightarrow> state \<Rightarrow> state" where
  "ServeHTTP splitHost rp req s =
     (case reserveInstance s of
        (Inl err, s1) \<Rightarrow> deferred (Some (PanicError err)) None s1
      | (Inr instance, s1) \<Rightarrow>
          (let req1 = req\<lparr>urlScheme := ''http''\<rparr>;
               req2 = req1\<lparr>urlHost := Hostname (heap s1 instance)\<rparr>;
               host = splitHost (remoteAddr req2);
               req3 = header_Add ''X-Real-IP'' host req2;
               s2 = emit (ProxyCall req3) s1
           in (case rp req3 of
                 Panicked v \<Rightarrow> deferred (Some v) (Some instance) s2
               | _ \<Rightarrow> deferred None (Some instance) s2)))"

subsection \<open>A run of the App\<close>

text \<open>
  What happens to an App during a run, one operation after the other: a call of
  \<^verbatim>\<open>StartNewInstance\<close> (with the \<^verbatim>\<open>NewInstance\<close> it meets), a round of the updater
  (with what the environment shows), a request served.
\<close>

datatype op =
    OpStart "32 word \<Rightarrow> error + Instance"
  | OpTick "ref \<Rightarrow> InstanceStatus"
  | OpServe "string \<Rightarrow> string" "Request \<Rightarrow> proxy_result" Request

fun step :: "op \<Rightarrow> state \<Rightarrow> state" where
  "step (OpStart ni) s = snd (StartNewInstance ni s)"
| "step (OpTick obs) s = updater_tick obs s"
| "step (OpServe splitHost rp req) s = ServeHTTP splitHost rp req s"

fun run :: "op list \<Rightarrow> state \<Rightarrow> state" where
  "run [] s = s"
| "run (o1 # rest) s = run rest (step o1 s)"

text \<open>The number of \<^verbatim>\<open>StartNewInstance\<close> calls in a run.\<close>

fun starts :: "op list \<Rightarrow> nat" where
  "starts [] = 0"
| "starts (OpStart ni # rest) = Suc (starts rest)"
| "starts (_ # rest) = starts rest"

section \<open>Example runs\<close>

text \<open>
  Concrete stand-ins for what the sources leave to the environment, and a few states
  the App reaches, for evaluating the model.
\<close>

definition starting_instance :: "32 word \<Rightarrow> Instance" where
  "starting_instance i =
     \<lparr>inst_id = i, status = InstanceStatusStarting, internalHost = ''127.0.0.1'', port = 20000\<rparr>"

text \<open>A \<^verbatim>\<open>NewInstance\<close> that succeeds, and one that finds the port pool empty.\<close>

definition spawn_ok :: "32 word \<Rightarrow> error + Instance" where
  "spawn_ok i = Inr (starting_instance i)"

definition ports_exhausted :: "32 word \<Rightarrow> error + Instance" where
  "ports_exhausted i = Inl ErrPortsExhausted"

text \<open>The host of an address of the form host:port.\<close>

definition host_part :: "string \<Rightarrow> string" where
  "host_part addr = takeWhile (\<lambda>c. c \<noteq> CHR '':'') addr"

definition proxy_completes :: "Request \<Rightarrow> proxy_result" where
  "proxy_completes q = Completed"

definition proxy_panics :: "Request \<Rightarrow> proxy_result" where
  "proxy_panics q = Panicked (PanicOther ''net/http: abort Handler'')"

definition example_request :: Request where
  "example_request =
     \<lparr>urlScheme = [], urlHost = ''example.org'', remoteAddr = ''10.0.0.7:51000'',
      header = [(''Accept'', ''text/html'')]\<rparr>"

definition all_serving :: "ref \<Rightarrow> InstanceStatus" where
  "all_serving r = InstanceStatusServing"

definition first_exited :: "ref \<Rightarrow> InstanceStatus" where
  "first_exited r = (if r = 0 then InstanceStatusExited else InstanceStatusServing)"

text \<open>One instance started and still starting; then found serving by the updater.\<close>

definition one_starting :: state where
  "one_starting = snd (StartNewInstance spawn_ok NewApp)"

definition one_serving :: state where
  "one_serving = updater_tick all_serving one_starting"

text \<open>A second instance started while the first one serves.\<close>

definition second_started :: state where
  "second_started = snd (StartNewInstance spawn_ok one_serving)"

text \<open>
  The first instance's child exits while it serves; a second instance is started and
  promoted in the next round.
\<close>

definition restarted_after_exit :: state where
  "restarted_after_exit =
     updater_tick first_exited
       (snd (StartNewInstance spawn_ok (updater_tick first_exited one_serving)))"

section \<open>Basic facts about the model\<close>

lemma emit_simps:
  "trace (emit e s) = trace s @ [e]"
  "app (emit e s) = app s"
  "heap (emit e s) = heap s"
  "nextRef (emit e s) = nextRef s"
  by (simp_all add: emit_def)

lemma Stop_simps:
  "trace (Stop r s) = trace s @ [StopCall r]"
  "app (Stop r s) = app s"
  "nextRef (Stop r s) = nextRef s"
  by (simp_all add: Stop_def Let_def emit_def)

lemma heap_Stop:
  "heap (Stop r s) =
     (heap s)(r := (heap s r)\<lparr>status :=
        (if status (heap s r) = InstanceStatusStarting \<or> status (heap s r) = InstanceStatusServing
         then InstanceStatusStopping else status (heap s r))\<rparr>)"
  by (simp add: Stop_def Let_def emit_def)

lemma serves_append: "serves (xs @ ys) = serves xs @ serves ys"
  by (induction xs rule: serves.induct) simp_all

lemma dones_append: "dones (xs @ ys) = dones xs @ dones ys"
  by (induction xs rule: dones.induct) simp_all


lemma assigned_ids_append: "assigned_ids (xs @ ys) = assigned_ids xs @ assigned_ids ys"
  by (induction xs rule: assigned_ids.induct) simp_all

lemma reserveInstance_None:
  "activeInstance (app s) = None \<Longrightarrow>
   reserveInstance s = (Inl ErrNoActiveInstances, emit Unlock (emit Lock s))"
  by (simp add: reserveInstance_def emit_simps)

lemma reserveInstance_Some:
  "activeInstance (app s) = Some i \<Longrightarrow>
   reserveInstance s = (Inr i, emit Unlock (emit (ServeCall i) (emit Lock s)))"
  by (simp add: reserveInstance_def Serve_def emit_simps)

lemma reserveInstance_Inr_iff:
  "fst (reserveInstance s) = Inr i \<longleftrightarrow> activeInstance (app s) = Some i"
  by (auto simp: reserveInstance_def emit_simps Let_def split: option.splits)

subsection \<open>The example states, computed\<close>

lemmas run_defs = StartNewInstance_def updater_tick_def updater_body_def UpdateStatus_def
  setActive_def Stop_def emit_def Let_def NewApp_def spawn_ok_def starting_instance_def
  all_serving_def first_exited_def ports_exhausted_def

lemma one_starting_eq:
  "one_starting =
    \<lparr>app = \<lparr>instances = [0], activeInstance = None, instanceId = 1\<rparr>,
     heap = (heap NewApp)(0 := starting_instance 1),
     nextRef = 1,
     trace = [NewInstanceCall 1]\<rparr>"
  by (simp add: one_starting_def run_defs)

lemma one_serving_eq:
  "one_serving =
    \<lparr>app = \<lparr>instances = [0], activeInstance = Some 0, instanceId = 1\<rparr>,
     heap = (heap NewApp)(0 := (starting_instance 1)\<lparr>status := InstanceStatusServing\<rparr>),
     nextRef = 1,
     trace = [NewInstanceCall 1, UpdateStatusCall 0, Lock, SetActive (Some 0), Unlock,
              ReportCall]\<rparr>"
  by (simp add: one_serving_def one_starting_eq run_defs)

lemma second_started_eq:
  "second_started =
    \<lparr>app = \<lparr>instances = [0, 1], activeInstance = Some 0, instanceId = 2\<rparr>,
     heap = (heap NewApp)(0 := (starting_instance 1)\<lparr>status := InstanceStatusServing\<rparr>,
                          1 := starting_instance 2),
     nextRef = 2,
     trace = [NewInstanceCall 1, UpdateStatusCall 0, Lock, SetActive (Some 0), Unlock,
              ReportCall, NewInstanceCall 2]\<rparr>"
  by (simp add: second_started_def one_serving_eq run_defs)

lemma restarted_after_exit_app:
  "app restarted_after_exit = \<lparr>instances = [0, 1], activeInstance = Some 1, instanceId = 2\<rparr>"
  by (simp add: restarted_after_exit_def one_serving_eq run_defs)

lemma restarted_after_exit_status:
  "status (heap restarted_after_exit 0) = InstanceStatusExited"
  "status (heap restarted_after_exit (Suc 0)) = InstanceStatusServing"
  by (simp_all add: restarted_after_exit_def one_serving_eq run_defs)


section \<open>Serving a request\<close>

text \<open>
  Claim C2. When the App has no active instance at admission, \<^verbatim>\<open>ServeHTTP\<close> answers
  with status 503 and closes the request body, and calls \<^verbatim>\<open>Done()\<close> on no instance:
  it takes and releases the lock, logs the error, writes the header 503, closes the
  body, and does nothing else (the request does not reach the proxy, the App and
  its instances are as before).
\<close>

theorem ServeHTTP_no_active_instance:
  assumes "activeInstance (app s) = None"
  shows "since s (ServeHTTP splitHost rp req s) =
           [Lock, Unlock, LogPrint (PanicError ErrNoActiveInstances), WriteHeader 503, BodyClose]
       \<and> dones (since s (ServeHTTP splitHost rp req s)) = []
       \<and> proxied (since s (ServeHTTP splitHost rp req s)) = []
       \<and> app (ServeHTTP splitHost rp req s) = app s
       \<and> heap (ServeHTTP splitHost rp req s) = heap s"
  using assms
  by (simp add: ServeHTTP_def reserveInstance_None deferred_def emit_def since_def)

theorem ServeHTTP_no_active_instance_witness:
  "activeInstance (app NewApp) = None
   \<and> since NewApp (ServeHTTP host_part proxy_completes example_request NewApp) =
       [Lock, Unlock, LogPrint (PanicError ErrNoActiveInstances), WriteHeader 503, BodyClose]
   \<and> dones (since NewApp (ServeHTTP host_part proxy_completes example_request NewApp)) = []"
proof -
  have none: "activeInstance (app NewApp) = None"
    by (simp add: NewApp_def)
  show ?thesis
    using none ServeHTTP_no_active_instance [OF none, of host_part proxy_completes example_request]
    by simp
qed

text \<open>
  Claim C3. When an instance was reserved for the request (\<^verbatim>\<open>reserveInstance\<close>
  returned it, having called \<^verbatim>\<open>Serve()\<close> on it), \<^verbatim>\<open>ServeHTTP\<close> calls \<^verbatim>\<open>Done()\<close>
  exactly once, on that instance, as its last action, however the proxy ends: it
  completes, it fails upstream, or it panics with any value. \<^verbatim>\<open>Serve()\<close> and
  \<^verbatim>\<open>Done()\<close> are each called once, on the same instance.
\<close>

theorem ServeHTTP_Done_exactly_once:
  assumes "fst (reserveInstance s) = Inr i"
  shows "serves (since s (ServeHTTP splitHost rp req s)) = [i]
       \<and> dones (since s (ServeHTTP splitHost rp req s)) = [i]
       \<and> last (trace (ServeHTTP splitHost rp req s)) = DoneCall i"
proof -
  from assms have act: "activeInstance (app s) = Some i"
    by (simp add: reserveInstance_Inr_iff)
  show ?thesis
    by (cases "rp (header_Add ''X-Real-IP'' (splitHost (remoteAddr req))
                 (req\<lparr>urlScheme := ''http'', urlHost := Hostname (heap s i)\<rparr>))")
       (simp_all add: ServeHTTP_def reserveInstance_Some [OF act] deferred_def Done_def
          since_def emit_simps serves_append dones_append Let_def header_Add_def)
qed

theorem ServeHTTP_Done_exactly_once_witness:
  "fst (reserveInstance one_serving) = Inr 0
   \<and> serves (since one_serving (ServeHTTP host_part proxy_panics example_request one_serving)) = [0]
   \<and> dones (since one_serving (ServeHTTP host_part proxy_panics example_request one_serving)) = [0]
   \<and> last (trace (ServeHTTP host_part proxy_panics example_request one_serving)) = DoneCall 0"
proof -
  have res: "fst (reserveInstance one_serving) = Inr 0"
    by (simp add: reserveInstance_Inr_iff one_serving_eq)
  show ?thesis
    using res ServeHTTP_Done_exactly_once [OF res, of host_part proxy_panics example_request]
    by simp
qed




section \<open>The updater loop\<close>

text \<open>
  Claim C4. When \<^verbatim>\<open>UpdateStatus()\<close> returns Serving for an instance that is not
  the active one, the updater promotes it: it takes the lock, reads the prior active
  instance, writes the new one, releases the lock, and only then, outside the lock, calls
  \<^verbatim>\<open>Stop()\<close> on the prior active instance if there was one. The write of the new
  active instance comes before the \<^verbatim>\<open>Stop()\<close>.
\<close>

theorem updater_promotes_then_stops:
  assumes "obs r = InstanceStatusServing" and "activeInstance (app s) \<noteq> Some r"
  shows "since s (updater_body obs r s) =
           [UpdateStatusCall r, Lock, SetActive (Some r), Unlock]
           @ (case activeInstance (app s) of None \<Rightarrow> [] | Some prior \<Rightarrow> [StopCall prior])
       \<and> activeInstance (app (updater_body obs r s)) = Some r"
  using assms
  by (auto simp: updater_body_def UpdateStatus_def setActive_def Let_def since_def emit_simps
        Stop_simps split: option.splits)

theorem updater_promotes_then_stops_witness:
  "all_serving 1 = InstanceStatusServing
   \<and> activeInstance (app second_started) \<noteq> Some 1
   \<and> since second_started (updater_body all_serving 1 second_started) =
       [UpdateStatusCall 1, Lock, SetActive (Some 1), Unlock, StopCall 0]
   \<and> activeInstance (app (updater_body all_serving 1 second_started)) = Some 1"
proof -
  have obs: "all_serving 1 = InstanceStatusServing"
    by (simp add: all_serving_def)
  have act: "activeInstance (app second_started) \<noteq> Some 1"
    by (simp add: second_started_eq)
  show ?thesis
    using obs act updater_promotes_then_stops [of all_serving 1 second_started]
    by (simp add: second_started_eq)
qed

text \<open>
  The branch for Exited does not look at which instance exited: it clears the active
  instance whatever the instance.
\<close>

lemma updater_Exited_clears_active:
  assumes "obs r = InstanceStatusExited"
  shows "activeInstance (app (updater_body obs r s)) = None"
  using assms
  by (simp add: updater_body_def UpdateStatus_def setActive_def Let_def emit_simps)

text \<open>
  Claim C5 says that an Exited result from an instance that is not the active one leaves
  the active instance unchanged. The code does not do that. After the first instance
  exited and a second one was started and promoted, the active instance is the second
  one, which serves; in the next round \<^verbatim>\<open>UpdateStatus()\<close> returns Exited once more for
  the first instance, and the updater clears the active instance, although the
  second instance still serves.
\<close>

theorem updater_Exited_of_other_instance_clears_active:
  "activeInstance (app restarted_after_exit) = Some 1
   \<and> status (heap restarted_after_exit 1) = InstanceStatusServing
   \<and> first_exited 0 = InstanceStatusExited
   \<and> activeInstance (app (updater_body first_exited 0 restarted_after_exit)) = None
   \<and> status (heap (updater_body first_exited 0 restarted_after_exit) 1) = InstanceStatusServing"
  by (simp add: restarted_after_exit_app restarted_after_exit_status updater_body_def
        UpdateStatus_def setActive_def Let_def emit_simps first_exited_def)

section \<open>Starting an instance\<close>

lemma stopStarting_frame:
  "app (stopStarting rs s) = app s"
  "nextRef (stopStarting rs s) = nextRef s"
  by (induction rs arbitrary: s) (simp_all add: Stop_simps)

lemma heap_stopStarting:
  "heap (stopStarting rs s) r =
     (if r \<in> set rs \<and> status (heap s r) = InstanceStatusStarting
      then (heap s r)\<lparr>status := InstanceStatusStopping\<rparr> else heap s r)"
  by (induction rs arbitrary: s) (auto simp: heap_Stop)

lemma trace_stopStarting:
  "distinct rs \<Longrightarrow>
   trace (stopStarting rs s) =
     trace s @ map StopCall (filter (\<lambda>r. status (heap s r) = InstanceStatusStarting) rs)"
proof (induction rs arbitrary: s)
  case Nil
  then show ?case by simp
next
  case (Cons x rest)
  have same: "filter (\<lambda>r. status (heap (Stop x s) r) = InstanceStatusStarting) rest =
              filter (\<lambda>r. status (heap s r) = InstanceStatusStarting) rest"
    using Cons.prems by (intro filter_cong) (auto simp: heap_Stop)
  from Cons show ?case
    by (simp add: Stop_simps same)
qed

lemma assigned_ids_stopStarting:
  "assigned_ids (trace (stopStarting rs s)) = assigned_ids (trace s)"
  by (induction rs arbitrary: s) (simp_all add: Stop_simps assigned_ids_append)

text \<open>Instances are fresh references.\<close>

lemma StartNewInstance_distinct:
  assumes "distinct (instances (app s))" and "\<forall>r \<in> set (instances (app s)). r < nextRef s"
  shows "distinct (instances (app (snd (StartNewInstance ni s))))
       \<and> (\<forall>r \<in> set (instances (app (snd (StartNewInstance ni s)))).
            r < nextRef (snd (StartNewInstance ni s)))"
  using assms
  by (auto simp: StartNewInstance_def Let_def emit_simps stopStarting_frame split: sum.splits)

lemma updater_body_frame:
  "instances (app (updater_body obs r s)) = instances (app s)"
  "nextRef (updater_body obs r s) = nextRef s"
  by (simp_all add: updater_body_def UpdateStatus_def setActive_def Let_def emit_simps
        Stop_simps split: option.splits)

lemma fold_updater_body_frame:
  "instances (app (fold (updater_body obs) rs s)) = instances (app s)"
  "nextRef (fold (updater_body obs) rs s) = nextRef s"
  by (induction rs arbitrary: s) (simp_all add: updater_body_frame)

lemma updater_tick_frame:
  "instances (app (updater_tick obs s)) = instances (app s)"
  "nextRef (updater_tick obs s) = nextRef s"
  by (simp_all add: updater_tick_def emit_simps fold_updater_body_frame)

lemma ServeHTTP_frame:
  "instances (app (ServeHTTP splitHost rp req s)) = instances (app s)"
  "nextRef (ServeHTTP splitHost rp req s) = nextRef s"
  by (simp_all add: ServeHTTP_def reserveInstance_def Serve_def deferred_def Done_def Let_def
        emit_simps split: option.splits proxy_result.splits)

lemma step_distinct:
  assumes "distinct (instances (app s))" and "\<forall>r \<in> set (instances (app s)). r < nextRef s"
  shows "distinct (instances (app (step o1 s)))
       \<and> (\<forall>r \<in> set (instances (app (step o1 s))). r < nextRef (step o1 s))"
proof (cases o1)
  case (OpStart ni)
  then show ?thesis
    using StartNewInstance_distinct [OF assms] by simp
next
  case (OpTick obs)
  then show ?thesis
    using assms by (simp add: updater_tick_frame)
next
  case (OpServe splitHost rp req)
  then show ?thesis
    using assms by (simp add: ServeHTTP_frame)
qed

lemma run_distinct:
  assumes "distinct (instances (app s))" and "\<forall>r \<in> set (instances (app s)). r < nextRef s"
  shows "distinct (instances (app (run ops s)))
       \<and> (\<forall>r \<in> set (instances (app (run ops s))). r < nextRef (run ops s))"
  using assms
proof (induction ops arbitrary: s)
  case Nil
  then show ?case by simp
next
  case (Cons o1 rest)
  have "distinct (instances (app (step o1 s)))
      \<and> (\<forall>r \<in> set (instances (app (step o1 s))). r < nextRef (step o1 s))"
    using Cons.prems by (rule step_distinct)
  then show ?case
    using Cons.IH [of "step o1 s"] by simp
qed

text \<open>In every state a new App reaches, the instance list holds no pointer twice.\<close>

lemma reachable_distinct: "distinct (instances (app (run ops NewApp)))"
  using run_distinct [of NewApp ops] by (simp add: NewApp_def)

text \<open>
  Claim C6. \<^verbatim>\<open>StartNewInstance\<close> first calls \<^verbatim>\<open>Stop()\<close> on every instance of the App
  whose status is Starting, in the order of the instance list, and only then creates the
  new instance, with the next id; when the creation succeeds the new instance is
  appended to the list. The instance list holds no pointer twice, as in every state
  the App reaches.
\<close>

theorem StartNewInstance_stops_then_creates:
  assumes "distinct (instances (app s))"
  shows "since s (snd (StartNewInstance NewInstance s)) =
           map StopCall (filter (\<lambda>r. status (heap s r) = InstanceStatusStarting) (instances (app s)))
           @ [NewInstanceCall (instanceId (app s) + 1)]
       \<and> (case NewInstance (instanceId (app s) + 1) of
            Inl err \<Rightarrow> instances (app (snd (StartNewInstance NewInstance s))) = instances (app s)
          | Inr newInstance \<Rightarrow>
              instances (app (snd (StartNewInstance NewInstance s))) = instances (app s) @ [nextRef s]
              \<and> heap (snd (StartNewInstance NewInstance s)) (nextRef s) = newInstance)"
  using assms
  by (simp add: StartNewInstance_def Let_def since_def emit_simps stopStarting_frame
        trace_stopStarting split: sum.splits)

theorem StartNewInstance_stops_then_creates_witness:
  "distinct (instances (app second_started))
   \<and> since second_started (snd (StartNewInstance spawn_ok second_started)) =
       [StopCall 1, NewInstanceCall 3]
   \<and> instances (app (snd (StartNewInstance spawn_ok second_started))) = [0, 1, 2]
   \<and> heap (snd (StartNewInstance spawn_ok second_started)) 2 = starting_instance 3"
proof -
  have d: "distinct (instances (app second_started))"
    by (simp add: second_started_eq)
  show ?thesis
    using d StartNewInstance_stops_then_creates [OF d, of spawn_ok]
    by (simp add: second_started_eq spawn_ok_def starting_instance_def NewApp_def)
qed

text \<open>
  Claim C7, as amended. When the creation of the new instance fails,
  \<^verbatim>\<open>StartNewInstance\<close> returns that error and appends nothing: the instance list and
  the active instance are as before, and every instance that was not Starting is
  unchanged. The instances that were Starting have been stopped before the creation was
  tried: they are Stopping.
\<close>

theorem StartNewInstance_failure:
  assumes "NewInstance (instanceId (app s) + 1) = Inl e"
  shows "fst (StartNewInstance NewInstance s) = Some e
       \<and> instances (app (snd (StartNewInstance NewInstance s))) = instances (app s)
       \<and> activeInstance (app (snd (StartNewInstance NewInstance s))) = activeInstance (app s)
       \<and> heap (snd (StartNewInstance NewInstance s)) =
           (\<lambda>r. if r \<in> set (instances (app s)) \<and> status (heap s r) = InstanceStatusStarting
                then (heap s r)\<lparr>status := InstanceStatusStopping\<rparr> else heap s r)"
  using assms
  by (simp add: StartNewInstance_def Let_def emit_simps stopStarting_frame
        heap_stopStarting fun_eq_iff)

theorem StartNewInstance_failure_witness:
  "ports_exhausted (instanceId (app second_started) + 1) = Inl ErrPortsExhausted
   \<and> fst (StartNewInstance ports_exhausted second_started) = Some ErrPortsExhausted
   \<and> instances (app (snd (StartNewInstance ports_exhausted second_started))) = [0, 1]
   \<and> activeInstance (app (snd (StartNewInstance ports_exhausted second_started))) = Some 0
   \<and> heap (snd (StartNewInstance ports_exhausted second_started)) 0 = heap second_started 0
   \<and> status (heap (snd (StartNewInstance ports_exhausted second_started)) 1) = InstanceStatusStopping"
proof -
  have f: "ports_exhausted (instanceId (app second_started) + 1) = Inl ErrPortsExhausted"
    by (simp add: ports_exhausted_def)
  show ?thesis
    using f StartNewInstance_failure [of ports_exhausted second_started ErrPortsExhausted]
    by (simp add: second_started_eq starting_instance_def)
qed

text \<open>
  Claim C7 as the spec states it fails: with one instance still starting and the port
  pool exhausted, the call returns the error, and the starting instance has been stopped.
\<close>

theorem StartNewInstance_failure_stops_starting_instance:
  "fst (StartNewInstance ports_exhausted one_starting) = Some ErrPortsExhausted
   \<and> status (heap one_starting 0) = InstanceStatusStarting
   \<and> status (heap (snd (StartNewInstance ports_exhausted one_starting)) 0) = InstanceStatusStopping
   \<and> since one_starting (snd (StartNewInstance ports_exhausted one_starting)) =
       [StopCall 0, NewInstanceCall 2]"
  by (simp add: one_starting_eq since_def run_defs)

section \<open>The id counter\<close>

lemma instanceId_StartNewInstance:
  "instanceId (app (snd (StartNewInstance ni s))) = instanceId (app s) + 1"
  by (simp add: StartNewInstance_def Let_def emit_simps stopStarting_frame split: sum.splits)

lemma ids_StartNewInstance:
  "assigned_ids (trace (snd (StartNewInstance ni s))) =
     assigned_ids (trace s) @ [instanceId (app s) + 1]"
  by (simp add: StartNewInstance_def Let_def emit_simps stopStarting_frame
        assigned_ids_stopStarting assigned_ids_append split: sum.splits)

lemma updater_body_ids:
  "instanceId (app (updater_body obs r s)) = instanceId (app s)"
  "assigned_ids (trace (updater_body obs r s)) = assigned_ids (trace s)"
  by (simp_all add: updater_body_def UpdateStatus_def setActive_def Let_def emit_simps
        Stop_simps assigned_ids_append split: option.splits)

lemma fold_updater_body_ids:
  "instanceId (app (fold (updater_body obs) rs s)) = instanceId (app s)"
  "assigned_ids (trace (fold (updater_body obs) rs s)) = assigned_ids (trace s)"
  by (induction rs arbitrary: s) (simp_all add: updater_body_ids)

lemma updater_tick_ids:
  "instanceId (app (updater_tick obs s)) = instanceId (app s)"
  "assigned_ids (trace (updater_tick obs s)) = assigned_ids (trace s)"
  by (simp_all add: updater_tick_def emit_simps fold_updater_body_ids assigned_ids_append)

lemma ServeHTTP_ids:
  "instanceId (app (ServeHTTP splitHost rp req s)) = instanceId (app s)"
  "assigned_ids (trace (ServeHTTP splitHost rp req s)) = assigned_ids (trace s)"
  by (simp_all add: ServeHTTP_def reserveInstance_def Serve_def deferred_def Done_def Let_def
        emit_simps assigned_ids_append split: option.splits proxy_result.splits)

lemma ids_run:
  "instanceId (app (run ops s)) = instanceId (app s) + of_nat (starts ops)
   \<and> assigned_ids (trace (run ops s)) =
       assigned_ids (trace s) @ map (\<lambda>k. instanceId (app s) + 1 + of_nat k) [0..<starts ops]"
proof (induction ops arbitrary: s)
  case Nil
  then show ?case by simp
next
  case (Cons o1 rest)
  show ?case
  proof (cases o1)
    case (OpStart ni)
    then show ?thesis
      by (simp add: Cons.IH ids_StartNewInstance instanceId_StartNewInstance map_upt_Suc
            add.assoc del: upt_Suc)
  next
    case (OpTick obs)
    then show ?thesis
      by (simp add: Cons.IH updater_tick_ids)
  next
    case (OpServe splitHost rp req)
    then show ?thesis
      by (simp add: Cons.IH ServeHTTP_ids)
  qed
qed

lemma ids_NewApp:
  "assigned_ids (trace (run ops NewApp)) = map (\<lambda>k. of_nat (Suc k)) [0..<starts ops]"
  by (simp add: ids_run NewApp_def)

lemma ids_NewApp_nth:
  assumes "k < starts ops"
  shows "assigned_ids (trace (run ops NewApp)) ! k = of_nat (Suc k)"
  using assms by (simp add: ids_NewApp del: of_nat_Suc)

lemma ids_NewApp_length:
  "length (assigned_ids (trace (run ops NewApp))) = starts ops"
  by (simp add: ids_NewApp)

lemma starts_replicate: "starts (replicate n (OpStart ni)) = n"
  by (induction n) simp_all

lemma word32_of_nat_less:
  fixes i j :: nat
  assumes "i < j" and "j < 2 ^ 32"
  shows "(of_nat i :: 32 word) < of_nat j"
proof -
  have "i mod 2 ^ 32 = i" and "j mod 2 ^ 32 = j"
    using assms by simp_all
  then show ?thesis
    using assms by (simp add: word_less_nat_alt unat_of_nat)
qed

text \<open>
  Claim C9, as amended. In a run of a new App with fewer than 2^32 calls of
  \<^verbatim>\<open>StartNewInstance\<close>, whatever else happens in between and whether the calls succeed
  or fail, the ids handed to \<^verbatim>\<open>NewInstance\<close> are 1, 2, 3, ... in this order: strictly
  increasing, and no id is used twice.
\<close>

theorem instance_ids_increasing:
  assumes "starts ops < 2 ^ 32"
  shows "assigned_ids (trace (run ops NewApp)) = map of_nat [1..<Suc (starts ops)]
       \<and> sorted_wrt (<) (assigned_ids (trace (run ops NewApp)))
       \<and> distinct (assigned_ids (trace (run ops NewApp)))"
proof -
  let ?ids = "assigned_ids (trace (run ops NewApp))"
  have "[1..<Suc (starts ops)] = map Suc [0..<starts ops]"
    by (simp only: map_Suc_upt One_nat_def)
  then have eq: "?ids = map of_nat [1..<Suc (starts ops)]"
    by (simp only: ids_NewApp map_map comp_def)
  have sorted: "sorted_wrt (<) ?ids"
    unfolding sorted_wrt_iff_nth_less
  proof (intro allI impI)
    fix i j assume "i < j" and "j < length ?ids"
    then have "Suc i < Suc j" and "Suc j < 2 ^ 32" and "i < starts ops" and "j < starts ops"
      using assms by (simp_all add: ids_NewApp_length)
    then show "?ids ! i < ?ids ! j"
      using word32_of_nat_less [of "Suc i" "Suc j"] by (simp only: ids_NewApp_nth)
  qed
  then have "distinct ?ids"
    by (simp add: strict_sorted_iff)
  with eq sorted show ?thesis by simp
qed

theorem instance_ids_increasing_witness:
  "starts [OpStart spawn_ok, OpTick all_serving, OpStart ports_exhausted, OpStart spawn_ok]
     < (2::nat) ^ 32
   \<and> assigned_ids (trace (run
        [OpStart spawn_ok, OpTick all_serving, OpStart ports_exhausted, OpStart spawn_ok]
        NewApp)) = [1, 2, 3]
   \<and> sorted_wrt (<) (assigned_ids (trace (run
        [OpStart spawn_ok, OpTick all_serving, OpStart ports_exhausted, OpStart spawn_ok]
        NewApp)))"
proof -
  let ?ops = "[OpStart spawn_ok, OpTick all_serving, OpStart ports_exhausted, OpStart spawn_ok]"
  have l: "starts ?ops < (2::nat) ^ 32"
    by simp
  have "[1..<Suc (starts ?ops)] = [1, 2, 3]"
    by (simp add: upt_rec)
  then show ?thesis
    using l instance_ids_increasing [of ?ops]
    by simp
qed

text \<open>
  Claim C9 as the spec states it, for every sequence of calls, fails: the counter is a
  \<^verbatim>\<open>uint32\<close> and wraps around. The call number 2^32 gets the id 0, after 2^32 - 1;
  the call after it gets the id 1 again.
\<close>

theorem instance_ids_wrap_around:
  "\<not> sorted_wrt (<)
       (assigned_ids (trace (run (replicate (2 ^ 32) (OpStart ports_exhausted)) NewApp)))
   \<and> \<not> distinct
       (assigned_ids (trace (run (replicate (2 ^ 32 + 1) (OpStart ports_exhausted)) NewApp)))"
proof -
  let ?a = "assigned_ids (trace (run (replicate (2 ^ 32) (OpStart ports_exhausted)) NewApp))"
  let ?b = "assigned_ids (trace (run (replicate (2 ^ 32 + 1) (OpStart ports_exhausted)) NewApp))"
  have "?a ! (2 ^ 32 - 1) = of_nat (Suc (2 ^ 32 - 1))"
    by (rule ids_NewApp_nth) (simp add: starts_replicate)
  then have last0: "?a ! (2 ^ 32 - 1) = 0"
    by simp
  have "\<not> sorted_wrt (<) ?a"
  proof
    assume "sorted_wrt (<) ?a"
    then have "?a ! (2 ^ 32 - 2) < ?a ! (2 ^ 32 - 1)"
      by (rule sorted_wrt_nth_less) (simp_all add: ids_NewApp_length starts_replicate)
    then show False
      by (simp only: last0 word_not_simps)
  qed
  moreover have "\<not> distinct ?b"
  proof
    assume d: "distinct ?b"
    have "?b ! 0 = of_nat (Suc 0)"
      by (rule ids_NewApp_nth) (simp add: starts_replicate)
    moreover have "?b ! (2 ^ 32) = of_nat (Suc (2 ^ 32))"
      by (rule ids_NewApp_nth) (simp add: starts_replicate)
    ultimately have same: "?b ! 0 = ?b ! (2 ^ 32)"
      by simp
    have "(0::nat) < length ?b" and "(2::nat) ^ 32 < length ?b"
      by (simp_all add: ids_NewApp_length starts_replicate)
    with d same have "(0::nat) = 2 ^ 32"
      by (simp only: nth_eq_iff_index_eq)
    then show False by simp
  qed
  ultimately show ?thesis by simp
qed

end
